theory Spec2Isabelle
  imports Main
begin

section \<open>The FAQ accordion: page model\<close>

text \<open>
  The repository holds two scripts over the same markup. \<^verbatim>\<open>script.js\<close> is the
  single-open accordion (every click closes all items and opens the clicked one); the
  second, longer script toggles each item on its own and adds ARIA attributes and keyboard
  navigation. Both are event handlers that mutate the DOM, so the model passes the page
  state explicitly: a handler takes the page and returns the page it leaves behind.

  The markup both scripts expect is a sequence of \<^verbatim>\<open>.faq-item\<close> containers, each
  holding one \<^verbatim>\<open>.faq-question\<close> button (with an optional \<^verbatim>\<open>.icon\<close> inside
  it) and an optional \<^verbatim>\<open>.faq-answer\<close>. The page is therefore the list of items in
  document order; the question at position \<open>q\<close> of \<^verbatim>\<open>querySelectorAll(".faq-question")\<close>
  is the button of item \<open>q\<close>, and \<^verbatim>\<open>question.parentElement\<close> is item \<open>q\<close> itself.
  A handler exists only for a question of the list, so every handler is read at an index
  \<open>q < length items\<close>.
\<close>

type_synonym attrs = "string \<rightharpoonup> string"

record item =
  active :: bool
  icon :: "string option"
  question :: attrs
  answer :: "attrs option"
  focusable :: bool

text \<open>
  \<open>active\<close>: the class list of the item contains \<^verbatim>\<open>active\<close> (the item is open).
  \<open>icon\<close>: the text content of the \<^verbatim>\<open>.icon\<close> element, \<open>None\<close> when
  \<^verbatim>\<open>querySelector(".icon")\<close> finds nothing. \<open>question\<close>: the attributes of the button.
  \<open>answer\<close>: the attributes of the answer element, \<open>None\<close> when the item has none.
  \<open>focusable\<close>: the browser would let the button take the focus as far as style and
  ancestors go (the button is rendered, and no ancestor hides, disables or inerts it).
  Neither script changes it.
\<close>

text \<open>
  Whether \<^verbatim>\<open>element.focus()\<close> on the button of an item moves the focus: the browser
  ignores the call on a button that is not rendered, is disabled or is inert.
\<close>

definition can_focus :: "item \<Rightarrow> bool" where
  "can_focus it =
     (focusable it \<and> question it ''disabled'' = None \<and> question it ''inert'' = None)"

definition plus_glyph :: string where
  "plus_glyph = ''+''"

text \<open>The minus glyph of \<^verbatim>\<open>script.js\<close> is U+2212, three bytes in the UTF-8 source.\<close>

definition minus_glyph :: string where
  "minus_glyph = [CHR 0xE2, CHR 0x88, CHR 0x92]"

datatype error = TypeError

definition open_count :: "item list \<Rightarrow> nat" where
  "open_count its = length (filter active its)"

section \<open>script.js: the single-open click handler\<close>

text \<open>
  Lines 7 to 10: the loop over every \<^verbatim>\<open>.faq-item\<close>. Each round removes the class and
  then writes the plus glyph through \<^verbatim>\<open>el.querySelector(".icon")\<close>; on an item without
  icon that assignment throws a TypeError, which ends the handler with the items visited so
  far already changed. The result is the page as the loop leaves it and the error, if any.
\<close>

fun click_forEach :: "item list \<Rightarrow> item list \<times> error option" where
  "click_forEach [] = ([], None)"
| "click_forEach (el # els) =
     (let el1 = el\<lparr>active := False\<rparr> in
      case icon el1 of
        None \<Rightarrow> (el1 # els, Some TypeError)
      | Some _ \<Rightarrow>
          (case click_forEach els of
             (els', e) \<Rightarrow> (el1\<lparr>icon := Some plus_glyph\<rparr> # els', e)))"

text \<open>
  Lines 4 to 14: the click handler of question \<open>q\<close>. After the loop it adds the class to
  the parent item and writes the minus glyph through \<^verbatim>\<open>question.querySelector(".icon")\<close>.
\<close>

definition exclusive_click :: "nat \<Rightarrow> item list \<Rightarrow> item list \<times> error option" where
  "exclusive_click q its =
     (case click_forEach its of
        (its1, Some e) \<Rightarrow> (its1, Some e)
      | (its1, None) \<Rightarrow>
          (let its2 = its1[q := (its1 ! q)\<lparr>active := True\<rparr>] in
           case icon (its2 ! q) of
             None \<Rightarrow> (its2, Some TypeError)
           | Some _ \<Rightarrow> (its2[q := (its2 ! q)\<lparr>icon := Some minus_glyph\<rparr>], None)))"

text \<open>A session of clicks: the page after the handlers of the questions \<open>qs\<close> ran in turn.\<close>

fun exclusive_clicks :: "nat list \<Rightarrow> item list \<Rightarrow> item list" where
  "exclusive_clicks [] its = its"
| "exclusive_clicks (q # qs) its = exclusive_clicks qs (fst (exclusive_click q its))"

section \<open>The ARIA script: independent toggling, keyboard, initialisation\<close>

record page =
  items :: "item list"
  focus :: "nat option"
  console :: "string list"
  listeners :: "(nat \<times> string) list"

text \<open>
  \<open>focus\<close>: the question holding the keyboard focus, if one does. \<open>console\<close>: the
  warnings logged so far. \<open>listeners\<close>: the registered handlers, as pairs of question
  and event type.
\<close>

text \<open>
  \<^verbatim>\<open>toggleFAQ(item)\<close>, lines 40 to 69. \<^verbatim>\<open>button\<close> is
  \<^verbatim>\<open>item.querySelector('.faq-question')\<close>; the item is always the parent of a question,
  so the button is never null and both \<^verbatim>\<open>if (button)\<close> tests succeed.
\<close>

definition toggleFAQ :: "item \<Rightarrow> item" where
  "toggleFAQ it =
     (let isActive = active it in
      if isActive
      then it\<lparr>active := False, question := (question it)(''aria-expanded'' \<mapsto> ''false'')\<rparr>
      else it\<lparr>active := True, question := (question it)(''aria-expanded'' \<mapsto> ''true'')\<rparr>)"

text \<open>Activation of question \<open>q\<close>: \<^verbatim>\<open>toggleFAQ(question.parentElement)\<close>.\<close>

definition activate :: "nat \<Rightarrow> page \<Rightarrow> page" where
  "activate q p = p\<lparr>items := (items p)[q := toggleFAQ (items p ! q)]\<rparr>"

text \<open>
  The click listener, lines 80 to 93. A listener returns the page and whether it called
  \<^verbatim>\<open>event.preventDefault()\<close>.
\<close>

definition on_click :: "nat \<Rightarrow> page \<Rightarrow> page \<times> bool" where
  "on_click q p = (activate q p, True)"

text \<open>
  JavaScript's \<^verbatim>\<open>%\<close> on integers: the remainder takes the sign of the dividend, and a
  zero divisor gives NaN (\<open>None\<close>).
\<close>

definition js_rem :: "int \<Rightarrow> int \<Rightarrow> int option" where
  "js_rem a b = (if b = 0 then None else Some (sgn a * (\<bar>a\<bar> mod \<bar>b\<bar>)))"

text \<open>\<^verbatim>\<open>questionsArray.indexOf(q)\<close>: the position of the question, \<open>-1\<close> when it is not in the array.\<close>

definition indexOf :: "item list \<Rightarrow> nat \<Rightarrow> int" where
  "indexOf questionsArray q = (if q < length questionsArray then int q else - 1)"

text \<open>\<^verbatim>\<open>questionsArray[i]\<close>: the question at that index, \<^verbatim>\<open>undefined\<close> (\<open>None\<close>) out of range or at NaN.\<close>

definition element_at :: "item list \<Rightarrow> int option \<Rightarrow> nat option" where
  "element_at questionsArray i =
     (case i of
        None \<Rightarrow> None
      | Some k \<Rightarrow> if 0 \<le> k \<and> k < int (length questionsArray) then Some (nat k) else None)"

text \<open>\<^verbatim>\<open>getNextQuestion\<close>, lines 146 to 161, and \<^verbatim>\<open>getPreviousQuestion\<close>, lines 168 to 177.\<close>

definition getNextQuestion :: "item list \<Rightarrow> nat \<Rightarrow> nat option" where
  "getNextQuestion faqQuestions currentQuestion =
     (let questionsArray = faqQuestions;
          currentIndex = indexOf questionsArray currentQuestion;
          nextIndex = js_rem (currentIndex + 1) (int (length questionsArray))
      in element_at questionsArray nextIndex)"

definition getPreviousQuestion :: "item list \<Rightarrow> nat \<Rightarrow> nat option" where
  "getPreviousQuestion faqQuestions currentQuestion =
     (let questionsArray = faqQuestions;
          currentIndex = indexOf questionsArray currentQuestion;
          prevIndex = js_rem (currentIndex - 1 + int (length questionsArray))
                        (int (length questionsArray))
      in element_at questionsArray prevIndex)"

text \<open>
  \<^verbatim>\<open>if (x) x.focus()\<close>: nothing happens when no question was returned, and
  \<^verbatim>\<open>focus()\<close> leaves the focus where it is when the returned button cannot take it.
\<close>

definition focus_if :: "nat option \<Rightarrow> page \<Rightarrow> page" where
  "focus_if target p =
     (case target of
        None \<Rightarrow> p
      | Some t \<Rightarrow> if can_focus (items p ! t) then p\<lparr>focus := Some t\<rparr> else p)"

text \<open>
  The keydown listener, lines 101 to 137: three \<^verbatim>\<open>if\<close> statements in sequence, each
  on \<^verbatim>\<open>event.key\<close>.
\<close>

definition on_keydown :: "nat \<Rightarrow> string \<Rightarrow> page \<Rightarrow> page \<times> bool" where
  "on_keydown q key p =
     (let (p1, d1) = (if key = ''Enter'' \<or> key = '' ''
                      then (activate q p, True) else (p, False));
          (p2, d2) = (if key = ''ArrowDown''
                      then (focus_if (getNextQuestion (items p1) q) p1, True) else (p1, d1));
          (p3, d3) = (if key = ''ArrowUp''
                      then (focus_if (getPreviousQuestion (items p2) q) p2, True) else (p2, d2))
      in (p3, d3))"

text \<open>Decimal digits of a number, as string concatenation writes them.\<close>

fun show_nat :: "nat \<Rightarrow> string" where
  "show_nat n = (if n < 10 then [''0123456789'' ! n]
                 else show_nat (n div 10) @ [''0123456789'' ! (n mod 10)])"

declare show_nat.simps [simp del]

text \<open>
  Line 199: \<^verbatim>\<open>'faq-answer-' + index + '-' + Date.now()\<close>, where \<open>now index\<close> is what
  \<^verbatim>\<open>Date.now()\<close> returns in the round of that index.
\<close>

definition answerId :: "(nat \<Rightarrow> nat) \<Rightarrow> nat \<Rightarrow> string" where
  "answerId now index = ''faq-answer-'' @ show_nat index @ ''-'' @ show_nat (now index)"

text \<open>One round of the initialisation loop, lines 185 to 217, for the question at \<open>index\<close>.\<close>

definition init_question :: "(nat \<Rightarrow> nat) \<Rightarrow> nat \<Rightarrow> item \<Rightarrow> item" where
  "init_question now index it =
     (let it1 = (case answer it of
                   None \<Rightarrow> it
                 | Some a \<Rightarrow>
                     it\<lparr>answer := Some (a(''id'' \<mapsto> answerId now index)),
                        question := (question it)(''aria-controls'' \<mapsto> answerId now index)\<rparr>);
          it2 = it1\<lparr>question := (question it1)(''role'' \<mapsto> ''button'')\<rparr>;
          it3 = it2\<lparr>question := (question it2)(''tabindex'' \<mapsto> ''0'')\<rparr>
      in it3)"

fun init_forEach :: "(nat \<Rightarrow> nat) \<Rightarrow> nat \<Rightarrow> item list \<Rightarrow> item list" where
  "init_forEach now index [] = []"
| "init_forEach now index (it # its) =
     init_question now index it # init_forEach now (Suc index) its"

text \<open>
  The \<^verbatim>\<open>DOMContentLoaded\<close> handler, lines 16 to 239: the guard on an empty collection,
  the loop registering the two listeners of every question, the initialisation loop.
\<close>

definition DOMContentLoaded :: "(nat \<Rightarrow> nat) \<Rightarrow> page \<Rightarrow> page" where
  "DOMContentLoaded now p =
     (if length (items p) = 0
      then p\<lparr>console := console p @ [''No FAQ questions found on the page'']\<rparr>
      else p\<lparr>listeners := listeners p @
                 concat (map (\<lambda>q. [(q, ''click''), (q, ''keydown'')]) [0..<length (items p)]),
              items := init_forEach now 0 (items p)\<rparr>)"

section \<open>Rendered state\<close>

definition glyph_matches :: "item \<Rightarrow> bool" where
  "glyph_matches it = (icon it = Some (if active it then minus_glyph else plus_glyph))"

definition aria_matches :: "item \<Rightarrow> bool" where
  "aria_matches it =
     (question it ''aria-expanded'' = Some (if active it then ''true'' else ''false''))"

section \<open>Sample markup\<close>

text \<open>
  Items as markup can hold them, all closed with a plus glyph: one whose button
  declares \<^verbatim>\<open>aria-expanded="false"\<close>, one whose button declares no ARIA state,
  one without answer element, and one whose button is disabled.
\<close>

definition declared_item :: item where
  "declared_item =
     \<lparr>active = False, icon = Some plus_glyph,
      question = [''class'' \<mapsto> ''faq-question'', ''aria-expanded'' \<mapsto> ''false''],
      answer = Some [''class'' \<mapsto> ''faq-answer''], focusable = True\<rparr>"

definition bare_item :: item where
  "bare_item =
     \<lparr>active = False, icon = Some plus_glyph,
      question = [''class'' \<mapsto> ''faq-question''],
      answer = Some [''class'' \<mapsto> ''faq-answer''], focusable = True\<rparr>"

definition unlinked_item :: item where
  "unlinked_item =
     \<lparr>active = False, icon = Some plus_glyph,
      question = [''class'' \<mapsto> ''faq-question''],
      answer = None, focusable = True\<rparr>"

definition disabled_item :: item where
  "disabled_item =
     \<lparr>active = False, icon = Some plus_glyph,
      question = [''class'' \<mapsto> ''faq-question'', ''disabled'' \<mapsto> []],
      answer = Some [''class'' \<mapsto> ''faq-answer''], focusable = True\<rparr>"

definition page_of :: "item list \<Rightarrow> page" where
  "page_of its = \<lparr>items = its, focus = None, console = [], listeners = []\<rparr>"

section \<open>Helper lemmas\<close>

subsection \<open>The single-open handler\<close>

lemma click_forEach_length: "length (fst (click_forEach its)) = length its"
  by (induction its) (auto simp: Let_def split: option.splits prod.splits)

lemma click_forEach_open_count: "open_count (fst (click_forEach its)) \<le> open_count its"
  by (induction its) (auto simp: open_count_def Let_def split: option.splits prod.splits)

lemma click_forEach_completed:
  "snd (click_forEach its) = None \<Longrightarrow> open_count (fst (click_forEach its)) = 0"
  by (induction its) (auto simp: open_count_def Let_def split: option.splits prod.splits)

lemma open_count_update: "open_count (its[q := it]) \<le> Suc (open_count its)"
  unfolding open_count_def
proof (induction its arbitrary: q)
  case Nil
  show ?case by simp
next
  case (Cons x xs)
  show ?case
  proof (cases q)
    case 0
    then show ?thesis by simp
  next
    case (Suc k)
    with Cons [of k] show ?thesis by simp
  qed
qed

lemma open_count_update_icon:
  "q < length its \<Longrightarrow> open_count (its[q := (its ! q)\<lparr>icon := g\<rparr>]) = open_count its"
  unfolding open_count_def
proof (induction its arbitrary: q)
  case Nil
  then show ?case by simp
next
  case (Cons x xs)
  then show ?case by (cases q) auto
qed

lemma exclusive_click_length: "length (fst (exclusive_click q its)) = length its"
  using click_forEach_length [of its]
  by (auto simp: exclusive_click_def Let_def split: option.splits prod.splits)

lemma exclusive_click_open_count:
  assumes "open_count its \<le> 1"
  shows "open_count (fst (exclusive_click q its)) \<le> 1"
proof (cases "click_forEach its")
  case (Pair its1 e)
  show ?thesis
  proof (cases e)
    case (Some err)
    with Pair have "fst (exclusive_click q its) = fst (click_forEach its)"
      by (simp add: exclusive_click_def)
    with click_forEach_open_count [of its] assms show ?thesis by simp
  next
    case None
    with Pair click_forEach_completed [of its] have z: "open_count its1 = 0" by simp
    define its2 where "its2 = its1[q := (its1 ! q)\<lparr>active := True\<rparr>]"
    have c2: "open_count its2 \<le> 1"
      using open_count_update [of its1 q] z by (simp add: its2_def)
    show ?thesis
    proof (cases "q < length its2")
      case True
      with c2 Pair None show ?thesis
        by (simp add: exclusive_click_def its2_def [symmetric] open_count_update_icon
            split: option.splits)
    next
      case False
      with c2 Pair None show ?thesis
        by (simp add: exclusive_click_def its2_def [symmetric] list_update_beyond
            split: option.splits)
    qed
  qed
qed

lemma exclusive_clicks_open_count:
  "open_count its \<le> 1 \<Longrightarrow> open_count (exclusive_clicks qs its) \<le> 1"
proof (induction qs arbitrary: its)
  case Nil
  then show ?case by simp
next
  case (Cons q qs)
  from Cons.prems have "open_count (fst (exclusive_click q its)) \<le> 1"
    by (rule exclusive_click_open_count)
  then have "open_count (exclusive_clicks qs (fst (exclusive_click q its))) \<le> 1"
    by (rule Cons.IH)
  then show ?case by simp
qed

lemma all_closed_open_count: "\<forall>it \<in> set its. \<not> active it \<Longrightarrow> open_count its = 0"
  by (simp add: open_count_def)

lemma click_forEach_icons:
  "\<forall>it \<in> set its. icon it \<noteq> None \<Longrightarrow>
   click_forEach its = (map (\<lambda>el. el\<lparr>active := False, icon := Some plus_glyph\<rparr>) its, None)"
  by (induction its) (auto simp: Let_def split: option.splits)

lemma exclusive_click_icons:
  assumes "q < length its" and "\<forall>it \<in> set its. icon it \<noteq> None"
  shows "exclusive_click q its =
    ((map (\<lambda>el. el\<lparr>active := False, icon := Some plus_glyph\<rparr>) its)
       [q := (its ! q)\<lparr>active := True, icon := Some minus_glyph\<rparr>], None)"
  using assms by (simp add: exclusive_click_def click_forEach_icons Let_def)

subsection \<open>The ARIA script\<close>

lemma activate_nth:
  "j < length (items p) \<Longrightarrow>
   items (activate q p) ! j = (if j = q then toggleFAQ (items p ! j) else items p ! j)"
  by (simp add: activate_def nth_list_update)

lemma activate_length: "length (items (activate q p)) = length (items p)"
  by (simp add: activate_def)

lemma init_forEach_length: "length (init_forEach now k its) = length its"
  by (induction its arbitrary: k) simp_all

lemma init_forEach_nth:
  "j < length its \<Longrightarrow> init_forEach now k its ! j = init_question now (k + j) (its ! j)"
proof (induction its arbitrary: k j)
  case Nil
  then show ?case by simp
next
  case (Cons x xs)
  show ?case
  proof (cases j)
    case 0
    then show ?thesis by simp
  next
    case (Suc m)
    with Cons.prems have "m < length xs" by simp
    from Cons.IH [OF this, of "Suc k"] Suc show ?thesis by simp
  qed
qed

lemma DOMContentLoaded_nth:
  "j < length (items p) \<Longrightarrow>
   items (DOMContentLoaded now p) ! j = init_question now j (items p ! j)"
  by (auto simp: DOMContentLoaded_def init_forEach_nth)

lemma DOMContentLoaded_length: "length (items (DOMContentLoaded now p)) = length (items p)"
  by (simp add: DOMContentLoaded_def init_forEach_length)

lemma js_rem_rem: "0 \<le> a \<Longrightarrow> 0 < b \<Longrightarrow> js_rem a b = Some (a mod b)"
  by (simp add: js_rem_def sgn_if)

lemma getNextQuestion_index:
  "q < length qs \<Longrightarrow> getNextQuestion qs q = Some ((q + 1) mod length qs)"
proof -
  assume q: "q < length qs"
  define n where "n = length qs"
  from q have ne: "qs \<noteq> []" by (cases qs) simp_all
  from ne have n: "0 < n" by (simp add: n_def)
  have e: "int q + 1 = int (q + 1)" by simp
  have "js_rem (int q + 1) (int n) = Some (int ((q + 1) mod n))"
    unfolding e using n by (simp add: js_rem_rem zmod_int del: of_nat_add of_nat_Suc)
  moreover have "(q + 1) mod n < n" using n by simp
  ultimately show ?thesis
    using q ne by (simp add: getNextQuestion_def indexOf_def element_at_def n_def)
qed

lemma getPreviousQuestion_index:
  "q < length qs \<Longrightarrow> getPreviousQuestion qs q = Some ((q + length qs - 1) mod length qs)"
proof -
  assume q: "q < length qs"
  define n where "n = length qs"
  from q have ne: "qs \<noteq> []" by (cases qs) simp_all
  from ne have n: "0 < n" by (simp add: n_def)
  have e: "int q - 1 + int n = int (q + n - 1)" using n by simp
  have "js_rem (int q - 1 + int n) (int n) = Some (int ((q + n - 1) mod n))"
    unfolding e using n by (simp add: js_rem_rem zmod_int del: of_nat_diff of_nat_add)
  moreover have "(q + n - 1) mod n < n" using n by simp
  ultimately show ?thesis
    using q ne by (simp add: getPreviousQuestion_def indexOf_def element_at_def n_def)
qed

lemma focus_if_cannot_focus:
  "\<not> can_focus (items p ! t) \<Longrightarrow> focus_if (Some t) p = p"
  by (simp add: focus_if_def)

lemma arrow_down_to_disabled_button:
  "on_keydown 0 ''ArrowDown'' (page_of [declared_item, disabled_item]) =
     (page_of [declared_item, disabled_item], True)"
proof -
  have "getNextQuestion [declared_item, disabled_item] 0 = Some 1"
    using getNextQuestion_index [of 0 "[declared_item, disabled_item]"] by simp
  then show ?thesis
    by (simp add: on_keydown_def page_of_def focus_if_def can_focus_def disabled_item_def)
qed

lemma init_question_question:
  "question (init_question now j it) =
     (case answer it of
        None \<Rightarrow> (question it)(''role'' \<mapsto> ''button'', ''tabindex'' \<mapsto> ''0'')
      | Some a \<Rightarrow> (question it)(''aria-controls'' \<mapsto> answerId now j,
                                   ''role'' \<mapsto> ''button'', ''tabindex'' \<mapsto> ''0''))"
  by (simp add: init_question_def Let_def split: option.splits)

lemma init_question_answer:
  "answer (init_question now j it) = map_option (\<lambda>a. a(''id'' \<mapsto> answerId now j)) (answer it)"
  by (simp add: init_question_def Let_def split: option.splits)

lemma init_question_active: "active (init_question now j it) = active it"
  by (simp add: init_question_def Let_def split: option.splits)

lemma init_question_icon: "icon (init_question now j it) = icon it"
  by (simp add: init_question_def Let_def split: option.splits)

lemma toggleFAQ_twice:
  "toggleFAQ (toggleFAQ it) =
     it\<lparr>question := (question it)(''aria-expanded'' \<mapsto> (if active it then ''true'' else ''false''))\<rparr>"
  by (simp add: toggleFAQ_def)

lemma toggleFAQ_twice_matching: "aria_matches it \<Longrightarrow> toggleFAQ (toggleFAQ it) = it"
  by (simp add: toggleFAQ_twice aria_matches_def map_upd_triv)

lemma activate_twice:
  "q < length (items p) \<Longrightarrow>
   activate q (activate q p) = p\<lparr>items := (items p)[q := toggleFAQ (toggleFAQ (items p ! q))]\<rparr>"
  by (simp add: activate_def)

section \<open>Single-open mode\<close>

text \<open>
  C1. Starting from a page whose items are all closed, after each click of any sequence of
  clicks on questions of the page, at most one item is open: the state after every prefix
  of the sequence has an open count of 0 or 1.
\<close>

theorem exclusive_at_most_one_open:
  assumes "\<forall>it \<in> set its. \<not> active it" and "\<forall>q \<in> set qs. q < length its"
  shows "\<forall>k \<le> length qs. open_count (exclusive_clicks (take k qs) its) \<le> 1"
proof -
  from assms(1) have "open_count its = 0" by (rule all_closed_open_count)
  then have "open_count its \<le> 1" by simp
  then show ?thesis by (intro allI impI exclusive_clicks_open_count)
qed

theorem exclusive_at_most_one_open_witness:
  "open_count (exclusive_clicks (take 2 [0, 1, 1]) [declared_item, bare_item]) \<le> 1
   \<and> map active (exclusive_clicks (take 2 [0, 1, 1]) [declared_item, bare_item]) = [False, True]"
proof -
  have closed: "\<forall>it \<in> set [declared_item, bare_item]. \<not> active it"
    by (simp add: declared_item_def bare_item_def)
  have valid: "\<forall>q \<in> set [0, 1, 1 :: nat]. q < length [declared_item, bare_item]"
    by simp
  have "open_count (exclusive_clicks (take 2 [0, 1, 1]) [declared_item, bare_item]) \<le> 1"
    using exclusive_at_most_one_open [OF closed valid, rule_format, of 2] by simp
  moreover have
    "map active (exclusive_clicks (take 2 [0, 1, 1]) [declared_item, bare_item]) = [False, True]"
    by (simp add: exclusive_click_def declared_item_def bare_item_def take_Cons')
  ultimately show ?thesis by simp
qed

text \<open>
  C2. The claim: a click on the item that is open closes it and leaves no item open. The
  handler has no such branch. On a page of one item, the first click opens the item; the
  second click, on the open item, closes it in the loop and opens it again, so the page
  is as the first click left it and one item is open.
\<close>

theorem exclusive_click_open_item_stays_open:
  "fst (exclusive_click 0 [declared_item]) =
     [declared_item\<lparr>active := True, icon := Some minus_glyph\<rparr>]
   \<and> exclusive_click 0 (fst (exclusive_click 0 [declared_item])) =
       ([declared_item\<lparr>active := True, icon := Some minus_glyph\<rparr>], None)
   \<and> open_count (fst (exclusive_click 0 (fst (exclusive_click 0 [declared_item])))) = 1"
  by (simp add: exclusive_click_def declared_item_def open_count_def)

section \<open>Rendered state\<close>

text \<open>
  C3, as stated: after every activation the icon glyph and \<^verbatim>\<open>aria-expanded\<close> of every
  item both agree with its open state. Neither script does both: \<^verbatim>\<open>toggleFAQ\<close> never
  writes the glyph, so the item it opens keeps its plus; the single-open handler never
  writes \<^verbatim>\<open>aria-expanded\<close>, so the item it opens keeps \<^verbatim>\<open>"false"\<close>.
\<close>

theorem rendered_state_counterexample:
  "\<not> glyph_matches (items (activate 0 (page_of [declared_item])) ! 0)
   \<and> \<not> aria_matches (fst (exclusive_click 0 [declared_item]) ! 0)"
  by (simp add: glyph_matches_def aria_matches_def activate_def page_of_def toggleFAQ_def
      exclusive_click_def declared_item_def plus_glyph_def minus_glyph_def)

text \<open>
  C3, amended: each script keeps the part of the rendered state it writes. After a click of
  the single-open handler on a page whose items all have an icon, the handler completes,
  the glyph of every item agrees with its open state, and no button attribute has changed.
  After \<^verbatim>\<open>toggleFAQ\<close> on item \<open>r\<close>, \<^verbatim>\<open>aria-expanded\<close> of item \<open>r\<close> agrees with
  its open state, no glyph has changed, and every other item keeps its attributes and
  its open state.
\<close>

theorem rendered_state_per_script:
  assumes "q < length its" and "\<forall>it \<in> set its. icon it \<noteq> None" and "r < length (items p)"
  shows "snd (exclusive_click q its) = None
    \<and> (\<forall>j < length its. glyph_matches (fst (exclusive_click q its) ! j)
          \<and> question (fst (exclusive_click q its) ! j) = question (its ! j))
    \<and> aria_matches (items (activate r p) ! r)
    \<and> (\<forall>j < length (items p). icon (items (activate r p) ! j) = icon (items p ! j)
          \<and> (j \<noteq> r \<longrightarrow> question (items (activate r p) ! j) = question (items p ! j)
                      \<and> active (items (activate r p) ! j) = active (items p ! j)))"
proof -
  note ec = exclusive_click_icons [OF assms(1,2)]
  have a: "snd (exclusive_click q its) = None" by (simp add: ec)
  have b: "\<forall>j < length its. glyph_matches (fst (exclusive_click q its) ! j)
          \<and> question (fst (exclusive_click q its) ! j) = question (its ! j)"
    using assms(1) by (auto simp: ec nth_list_update glyph_matches_def)
  have c: "aria_matches (items (activate r p) ! r)"
    using assms(3) by (simp add: activate_nth toggleFAQ_def aria_matches_def)
  have d: "\<forall>j < length (items p). icon (items (activate r p) ! j) = icon (items p ! j)
          \<and> (j \<noteq> r \<longrightarrow> question (items (activate r p) ! j) = question (items p ! j)
                      \<and> active (items (activate r p) ! j) = active (items p ! j))"
    by (simp add: activate_nth toggleFAQ_def)
  from a b c d show ?thesis by blast
qed


theorem rendered_state_per_script_witness:
  "glyph_matches (fst (exclusive_click 1 [declared_item, bare_item]) ! 0)
   \<and> glyph_matches (fst (exclusive_click 1 [declared_item, bare_item]) ! 1)
   \<and> aria_matches (items (activate 1 (page_of [declared_item, bare_item])) ! 1)
   \<and> active (items (activate 1 (page_of [declared_item, bare_item])) ! 1)"
proof -
  have q: "1 < length [declared_item, bare_item]" by simp
  have icons: "\<forall>it \<in> set [declared_item, bare_item]. icon it \<noteq> None"
    by (simp add: declared_item_def bare_item_def)
  have r: "1 < length (items (page_of [declared_item, bare_item]))"
    by (simp add: page_of_def)
  have "active (items (activate 1 (page_of [declared_item, bare_item])) ! 1)"
    by (simp add: activate_def page_of_def toggleFAQ_def bare_item_def)
  with rendered_state_per_script [OF q icons r] show ?thesis by simp
qed

section \<open>Initialisation\<close>

text \<open>
  C4, as stated: after initialisation of a page of at least one item, every button carries
  \<^verbatim>\<open>aria-expanded="false"\<close> and every item is closed. The initialisation loop sets
  \<^verbatim>\<open>aria-controls\<close>, \<^verbatim>\<open>role\<close> and \<^verbatim>\<open>tabindex\<close> only: a button whose markup
  declares no \<^verbatim>\<open>aria-expanded\<close> has none afterwards.
\<close>

theorem initialize_counterexample:
  "1 \<le> length (items (page_of [bare_item]))
   \<and> question (items (DOMContentLoaded (\<lambda>i. 1000 + i) (page_of [bare_item])) ! 0) ''aria-expanded''
       \<noteq> Some ''false''"
  by (simp add: DOMContentLoaded_def page_of_def init_question_question bare_item_def)

text \<open>
  C4, amended: after initialisation of a page of at least one item, every button has
  \<^verbatim>\<open>role="button"\<close> and \<^verbatim>\<open>tabindex="0"\<close>, and its \<^verbatim>\<open>aria-expanded\<close> attribute
  and the open state of its item are what the markup declared: \<^verbatim>\<open>"false"\<close> and closed
  exactly when the markup says so.
\<close>

theorem initialize_postcondition:
  assumes "1 \<le> length (items p)" and "q < length (items p)"
  shows "question (items (DOMContentLoaded now p) ! q) ''role'' = Some ''button''
    \<and> question (items (DOMContentLoaded now p) ! q) ''tabindex'' = Some ''0''
    \<and> question (items (DOMContentLoaded now p) ! q) ''aria-expanded'' =
        question (items p ! q) ''aria-expanded''
    \<and> active (items (DOMContentLoaded now p) ! q) = active (items p ! q)"
  using assms(2)
  by (simp add: DOMContentLoaded_nth init_question_question init_question_active
      split: option.splits)

theorem initialize_postcondition_witness:
  "question (items (DOMContentLoaded (\<lambda>i. 1000 + i) (page_of [declared_item, bare_item])) ! 0)
     ''aria-expanded'' = Some ''false''
   \<and> question (items (DOMContentLoaded (\<lambda>i. 1000 + i) (page_of [declared_item, bare_item])) ! 0)
     ''role'' = Some ''button''
   \<and> \<not> active (items (DOMContentLoaded (\<lambda>i. 1000 + i) (page_of [declared_item, bare_item])) ! 0)"
proof -
  have n: "1 \<le> length (items (page_of [declared_item, bare_item]))"
    by (simp add: page_of_def)
  have q: "0 < length (items (page_of [declared_item, bare_item]))"
    by (simp add: page_of_def)
  show ?thesis
    using initialize_postcondition [OF n q, of "\<lambda>i. 1000 + i"]
    by (simp add: page_of_def declared_item_def)
qed

text \<open>
  C8. When the page has no question, the handler logs the warning and returns: the page is
  unchanged but for the console, so no attribute is set and no listener is registered. The
  handler returns a page on every input, so nothing propagates to the caller.
\<close>

theorem empty_collection_warns_only:
  assumes "items p = []"
  shows "DOMContentLoaded now p = p\<lparr>console := console p @ [''No FAQ questions found on the page'']\<rparr>"
  using assms by (simp add: DOMContentLoaded_def)

theorem empty_collection_warns_only_witness:
  "DOMContentLoaded (\<lambda>i. 1000 + i) (page_of []) =
     \<lparr>items = [], focus = None, console = [''No FAQ questions found on the page''],
      listeners = []\<rparr>"
proof -
  have e: "items (page_of []) = []" by (simp add: page_of_def)
  show ?thesis using empty_collection_warns_only [OF e] by (simp add: page_of_def)
qed


text \<open>
  C9. When the item of question \<open>q\<close> has no answer element, initialisation changes that
  item only by setting \<^verbatim>\<open>role\<close> and \<^verbatim>\<open>tabindex\<close> on its button (no
  \<^verbatim>\<open>id\<close>, no \<^verbatim>\<open>aria-controls\<close>), and the loop goes on over the whole collection:
  every question gets \<^verbatim>\<open>role\<close>, \<^verbatim>\<open>tabindex\<close> and both listeners, and every item
  that has an answer gets the answer's \<^verbatim>\<open>id\<close> and the button's \<^verbatim>\<open>aria-controls\<close>
  set to the same identifier.
\<close>

theorem missing_panel_tolerance:
  assumes "q < length (items p)" and "answer (items p ! q) = None"
  shows "length (items (DOMContentLoaded now p)) = length (items p)
    \<and> items (DOMContentLoaded now p) ! q =
        (items p ! q)\<lparr>question := (question (items p ! q))
                                     (''role'' \<mapsto> ''button'', ''tabindex'' \<mapsto> ''0'')\<rparr>
    \<and> (\<forall>j < length (items p).
          question (items (DOMContentLoaded now p) ! j) ''role'' = Some ''button''
          \<and> question (items (DOMContentLoaded now p) ! j) ''tabindex'' = Some ''0''
          \<and> (j, ''click'') \<in> set (listeners (DOMContentLoaded now p))
          \<and> (j, ''keydown'') \<in> set (listeners (DOMContentLoaded now p))
          \<and> (\<forall>a. answer (items p ! j) = Some a \<longrightarrow>
                answer (items (DOMContentLoaded now p) ! j) = Some (a(''id'' \<mapsto> answerId now j))
                \<and> question (items (DOMContentLoaded now p) ! j) ''aria-controls'' =
                    Some (answerId now j)))"
proof -
  from assms(1) have ne: "items p \<noteq> []" by (cases "items p") simp_all
  have a: "length (items (DOMContentLoaded now p)) = length (items p)"
    by (rule DOMContentLoaded_length)
  have b: "items (DOMContentLoaded now p) ! q =
        (items p ! q)\<lparr>question := (question (items p ! q))
                                     (''role'' \<mapsto> ''button'', ''tabindex'' \<mapsto> ''0'')\<rparr>"
    using assms by (simp add: DOMContentLoaded_nth init_question_def Let_def)
  have c: "\<forall>j < length (items p).
          question (items (DOMContentLoaded now p) ! j) ''role'' = Some ''button''
          \<and> question (items (DOMContentLoaded now p) ! j) ''tabindex'' = Some ''0''
          \<and> (\<forall>a. answer (items p ! j) = Some a \<longrightarrow>
                answer (items (DOMContentLoaded now p) ! j) = Some (a(''id'' \<mapsto> answerId now j))
                \<and> question (items (DOMContentLoaded now p) ! j) ''aria-controls'' =
                    Some (answerId now j))"
    by (simp add: DOMContentLoaded_nth init_question_question init_question_answer
        split: option.splits)
  have d: "\<forall>j < length (items p).
          (j, ''click'') \<in> set (listeners (DOMContentLoaded now p))
          \<and> (j, ''keydown'') \<in> set (listeners (DOMContentLoaded now p))"
    using ne by (simp add: DOMContentLoaded_def)
  from a b c d show ?thesis by simp
qed

theorem missing_panel_tolerance_witness:
  "items (DOMContentLoaded (\<lambda>i. 1000 + i) (page_of [unlinked_item, declared_item])) ! 0 =
     unlinked_item\<lparr>question := [''class'' \<mapsto> ''faq-question'', ''role'' \<mapsto> ''button'',
                                 ''tabindex'' \<mapsto> ''0'']\<rparr>
   \<and> question (items (DOMContentLoaded (\<lambda>i. 1000 + i) (page_of [unlinked_item, declared_item])) ! 1)
       ''aria-controls'' = Some ''faq-answer-1-1001''"
proof -
  have q: "0 < length (items (page_of [unlinked_item, declared_item]))"
    by (simp add: page_of_def)
  have none: "answer (items (page_of [unlinked_item, declared_item]) ! 0) = None"
    by (simp add: page_of_def unlinked_item_def)
  have id1: "answerId (\<lambda>i. 1000 + i) (Suc 0) = ''faq-answer-1-1001''"
    by (simp add: answerId_def show_nat.simps)
  note t = missing_panel_tolerance [OF q none, of "\<lambda>i. 1000 + i"]
  from t have first:
    "items (DOMContentLoaded (\<lambda>i. 1000 + i) (page_of [unlinked_item, declared_item])) ! 0 =
       unlinked_item\<lparr>question := [''class'' \<mapsto> ''faq-question'', ''role'' \<mapsto> ''button'',
                                   ''tabindex'' \<mapsto> ''0'']\<rparr>"
    by (simp add: page_of_def unlinked_item_def)
  have "1 < length (items (page_of [unlinked_item, declared_item]))"
    by (simp add: page_of_def)
  with t [THEN conjunct2, THEN conjunct2, rule_format, of 1] have second:
    "question (items (DOMContentLoaded (\<lambda>i. 1000 + i) (page_of [unlinked_item, declared_item])) ! 1)
       ''aria-controls'' = Some ''faq-answer-1-1001''"
    by (simp add: page_of_def declared_item_def id1)
  from first second show ?thesis by simp
qed

section \<open>Independent mode\<close>

text \<open>
  C5. For distinct items \<open>i\<close> and \<open>j\<close>, activating item \<open>i\<close> flips the open state
  of item \<open>i\<close> and leaves item \<open>j\<close> as it was: class, attributes (so
  \<^verbatim>\<open>aria-expanded\<close>), icon and answer.
\<close>

theorem independent_frame:
  assumes "i < length (items p)" and "j < length (items p)" and "i \<noteq> j"
  shows "items (activate i p) ! j = items p ! j
    \<and> active (items (activate i p) ! i) = (\<not> active (items p ! i))
    \<and> length (items (activate i p)) = length (items p)"
  using assms by (simp add: activate_nth activate_length toggleFAQ_def)

theorem independent_frame_witness:
  "items (activate 0 (page_of [declared_item, bare_item])) ! 1 = bare_item
   \<and> active (items (activate 0 (page_of [declared_item, bare_item])) ! 0)"
proof -
  have i: "0 < length (items (page_of [declared_item, bare_item]))"
    and j: "1 < length (items (page_of [declared_item, bare_item]))"
    by (simp_all add: page_of_def)
  have ne: "(0::nat) \<noteq> 1" by simp
  show ?thesis
    using independent_frame [OF i j ne] by (simp add: page_of_def declared_item_def)
qed

text \<open>
  C10, as stated: two activations in a row of the same item restore its class and the
  \<^verbatim>\<open>aria-expanded\<close> value of its button, from every starting state. On the initialised
  page of a button whose markup declares no \<^verbatim>\<open>aria-expanded\<close>, the attribute is absent
  before and \<^verbatim>\<open>"false"\<close> after.
\<close>

theorem double_toggle_counterexample:
  "question (items (activate 0 (activate 0
       (DOMContentLoaded (\<lambda>i. 1000 + i) (page_of [bare_item])))) ! 0) ''aria-expanded''
   \<noteq> question (items (DOMContentLoaded (\<lambda>i. 1000 + i) (page_of [bare_item])) ! 0)
        ''aria-expanded''"
  by (simp add: activate_def toggleFAQ_def DOMContentLoaded_def page_of_def
      init_question_question init_question_active bare_item_def)

text \<open>
  C10, amended: two activations in a row of the same item restore its class and leave
  \<^verbatim>\<open>aria-expanded\<close> at the value that matches the class (\<^verbatim>\<open>"true"\<close> when open,
  \<^verbatim>\<open>"false"\<close> when closed), every other attribute unchanged; so when
  \<^verbatim>\<open>aria-expanded\<close> matched the class before the first activation, the whole page is
  restored.
\<close>

theorem double_toggle:
  assumes "q < length (items p)"
  shows "active (items (activate q (activate q p)) ! q) = active (items p ! q)
    \<and> question (items (activate q (activate q p)) ! q) =
        (question (items p ! q))
          (''aria-expanded'' \<mapsto> (if active (items p ! q) then ''true'' else ''false''))
    \<and> (aria_matches (items p ! q) \<longrightarrow> activate q (activate q p) = p)"
proof -
  note tw = activate_twice [OF assms]
  have a: "active (items (activate q (activate q p)) ! q) = active (items p ! q)"
    using assms by (simp add: tw toggleFAQ_twice)
  have b: "question (items (activate q (activate q p)) ! q) =
        (question (items p ! q))
          (''aria-expanded'' \<mapsto> (if active (items p ! q) then ''true'' else ''false''))"
    using assms by (simp add: tw toggleFAQ_twice)
  have c: "aria_matches (items p ! q) \<longrightarrow> activate q (activate q p) = p"
    by (simp add: tw toggleFAQ_twice_matching)
  from a b c show ?thesis by simp
qed

theorem double_toggle_witness:
  "activate 0 (activate 0 (page_of [declared_item])) = page_of [declared_item]
   \<and> question (items (activate 0 (activate 0 (page_of [bare_item]))) ! 0) ''aria-expanded'' =
       Some ''false''"
proof -
  have q: "0 < length (items (page_of [declared_item]))"
    and q': "0 < length (items (page_of [bare_item]))"
    by (simp_all add: page_of_def)
  have m: "aria_matches (items (page_of [declared_item]) ! 0)"
    by (simp add: aria_matches_def page_of_def declared_item_def)
  show ?thesis
    using double_toggle [OF q] double_toggle [OF q'] m
    by (simp add: page_of_def bare_item_def)
qed


section \<open>Keyboard\<close>

text \<open>
  C6. On a page of \<open>n \<ge> 1\<close> items whose triggers can take the focus (the data model's
  trigger is a focusable control), ArrowDown on question \<open>i\<close> moves the focus to question
  \<open>(i + 1) mod n\<close> and ArrowUp to question \<open>(i - 1 + n) mod n\<close>, written
  \<open>(i + n - 1) mod n\<close> on natural numbers; the page is otherwise unchanged. Whether or
  not the target takes the focus, the question the handler computes is the one at that
  index, and no item opens, closes or changes in any way. In particular the previous
  question of the first is the last, and the next question of the last is the first.
\<close>

theorem wraparound_navigation:
  assumes "1 \<le> length (items p)" and "i < length (items p)"
  shows "getNextQuestion (items p) i = Some ((i + 1) mod length (items p))
    \<and> getPreviousQuestion (items p) i = Some ((i + length (items p) - 1) mod length (items p))
    \<and> (can_focus (items p ! ((i + 1) mod length (items p))) \<longrightarrow>
          on_keydown i ''ArrowDown'' p =
            (p\<lparr>focus := Some ((i + 1) mod length (items p))\<rparr>, True))
    \<and> (can_focus (items p ! ((i + length (items p) - 1) mod length (items p))) \<longrightarrow>
          on_keydown i ''ArrowUp'' p =
            (p\<lparr>focus := Some ((i + length (items p) - 1) mod length (items p))\<rparr>, True))
    \<and> items (fst (on_keydown i ''ArrowDown'' p)) = items p
    \<and> items (fst (on_keydown i ''ArrowUp'' p)) = items p
    \<and> getPreviousQuestion (items p) 0 = Some (length (items p) - 1)
    \<and> getNextQuestion (items p) (length (items p) - 1) = Some 0"
proof -
  from assms(1) have z: "0 < length (items p)" and l: "length (items p) - 1 < length (items p)"
    by (cases "items p"; simp)+
  note nx = getNextQuestion_index [OF assms(2)]
  note pv = getPreviousQuestion_index [OF assms(2)]
  have a: "can_focus (items p ! ((i + 1) mod length (items p))) \<longrightarrow>
          on_keydown i ''ArrowDown'' p =
            (p\<lparr>focus := Some ((i + 1) mod length (items p))\<rparr>, True)"
    by (simp add: on_keydown_def nx focus_if_def)
  have b: "can_focus (items p ! ((i + length (items p) - 1) mod length (items p))) \<longrightarrow>
          on_keydown i ''ArrowUp'' p =
            (p\<lparr>focus := Some ((i + length (items p) - 1) mod length (items p))\<rparr>, True)"
    by (simp add: on_keydown_def pv focus_if_def)
  have e: "items (fst (on_keydown i ''ArrowDown'' p)) = items p"
    by (simp add: on_keydown_def nx focus_if_def)
  have f: "items (fst (on_keydown i ''ArrowUp'' p)) = items p"
    by (simp add: on_keydown_def pv focus_if_def)
  have c: "getPreviousQuestion (items p) 0 = Some (length (items p) - 1)"
    using getPreviousQuestion_index [OF z] z by simp
  have d: "getNextQuestion (items p) (length (items p) - 1) = Some 0"
    using getNextQuestion_index [OF l] z by simp
  from nx pv a b c d e f show ?thesis by simp
qed

theorem wraparound_navigation_witness:
  "fst (on_keydown 2 ''ArrowDown'' (page_of [declared_item, bare_item, unlinked_item])) =
     (page_of [declared_item, bare_item, unlinked_item])\<lparr>focus := Some 0\<rparr>
   \<and> fst (on_keydown 0 ''ArrowUp'' (page_of [declared_item, bare_item, unlinked_item])) =
     (page_of [declared_item, bare_item, unlinked_item])\<lparr>focus := Some 2\<rparr>"
proof -
  have n: "1 \<le> length (items (page_of [declared_item, bare_item, unlinked_item]))"
    and i2: "2 < length (items (page_of [declared_item, bare_item, unlinked_item]))"
    and i0: "0 < length (items (page_of [declared_item, bare_item, unlinked_item]))"
    by (simp_all add: page_of_def)
  have f0: "can_focus declared_item" and f2: "can_focus unlinked_item"
    by (simp_all add: can_focus_def declared_item_def unlinked_item_def)
  show ?thesis
    using wraparound_navigation [OF n i2] wraparound_navigation [OF n i0] f0 f2
    by (simp add: page_of_def)
qed

text \<open>
  C7. A key other than Enter, Space, ArrowDown and ArrowUp leaves the page as it is (items,
  attributes, focus) and the default action is not suppressed.
\<close>

theorem other_keys_no_effect:
  assumes "key \<notin> {''Enter'', '' '', ''ArrowDown'', ''ArrowUp''}"
  shows "on_keydown q key p = (p, False)"
  using assms by (simp add: on_keydown_def)

theorem other_keys_no_effect_witness:
  "on_keydown 0 ''Tab'' (page_of [declared_item]) = (page_of [declared_item], False)"
proof -
  have k: "''Tab'' \<notin> {''Enter'', '' '', ''ArrowDown'', ''ArrowUp''}" by simp
  show ?thesis using other_keys_no_effect [OF k] by simp
qed


end
